theory Spec2Isabelle
  imports Main "HOL-Library.Sublist" "HOL-Library.Multiset"
begin

section \<open>The pull-request summary generator (bin/pr-summary.js)\<close>

text \<open>
  The script collects commit subjects, changed paths and a numstat report from git,
  classifies them and renders a markdown template. The embedding follows the
  functions \<open>detectPRType\<close>, \<open>categorizeFiles\<close>, \<open>generateSuggestions\<close>,
  \<open>analyzeComplexity\<close>, \<open>generateChangesSection\<close>, \<open>generateFileList\<close>,
  \<open>loadConfig\<close> and the part of \<open>main\<close> that connects them.

  Strings are lists of 8-bit characters: ASCII text is written as is, the icons of the
  source are their UTF-8 bytes. A JavaScript exception is a value \<open>Inl e\<close>.
  Line counts are natural numbers (git prints decimal counts, far below the range where
  a JavaScript number stops being exact).
\<close>

subsection \<open>Complexity and risk: \<open>analyzeComplexity\<close>\<close>

datatype tier = Low | Medium | High

fun tier_rank :: "tier \<Rightarrow> nat" where
  "tier_rank Low = 0"
| "tier_rank Medium = 1"
| "tier_rank High = 2"

definition tier_le :: "tier \<Rightarrow> tier \<Rightarrow> bool" where
  "tier_le s t = (tier_rank s \<le> tier_rank t)"

text \<open>
  One non-empty line of \<open>git diff --numstat\<close> after \<open>line.split('\t').map(Number)\<close>:
  the first two fields as JavaScript numbers, \<open>Some n\<close> for the count \<open>n\<close> and \<open>None\<close> for
  \<open>NaN\<close> (git prints \<open>-\<close> for a binary file) or \<open>undefined\<close> (the field is missing), and
  the third field, the path, which the analyzer never reads.
\<close>

record numstat_line =
  added :: "nat option"
  removed :: "nat option"
  file_path :: string

record analysis =
  complexity :: tier
  risk :: tier
  totalAdded :: nat
  totalRemoved :: nat
  fileCount :: nat

text \<open>\<open>x || 0\<close>: \<open>NaN\<close> and \<open>undefined\<close> are falsy.\<close>

definition or_zero :: "nat option \<Rightarrow> nat" where
  "or_zero v = (case v of None \<Rightarrow> 0 | Some n \<Rightarrow> n)"

text \<open>\<open>added + removed > 200\<close>: a sum with \<open>NaN\<close> or \<open>undefined\<close> is \<open>NaN\<close>, and
  every comparison with \<open>NaN\<close> is false.\<close>

definition exceeds_200 :: "nat option \<Rightarrow> nat option \<Rightarrow> bool" where
  "exceeds_200 a r =
     (case a of None \<Rightarrow> False
      | Some x \<Rightarrow> (case r of None \<Rightarrow> False | Some y \<Rightarrow> 200 < x + y))"

text \<open>The body of \<open>lines.forEach\<close>, on the state (totalAdded, totalRemoved, largeFiles).\<close>

fun count_line :: "nat \<times> nat \<times> nat \<Rightarrow> numstat_line \<Rightarrow> nat \<times> nat \<times> nat" where
  "count_line (ta, tr, lf) l =
     (ta + or_zero (added l),
      tr + or_zero (removed l),
      if exceeds_200 (added l) (removed l) then lf + 1 else lf)"

definition analyzeComplexity :: "numstat_line list \<Rightarrow> analysis" where
  "analyzeComplexity lines =
     (case foldl count_line (0, 0, 0) lines of
        (ta, tr, largeFiles) \<Rightarrow>
          let totalChanges = ta + tr;
              cx = (if totalChanges > 1000 \<or> largeFiles > 3 then High
                    else if totalChanges > 300 \<or> largeFiles > 1 then Medium
                    else Low);
              risk0 = Low;
              risk1 = (if largeFiles > 2 \<or> tr > ta * 2 then Medium else risk0);
              risk2 = (if largeFiles > 5 \<or> totalChanges > 2000 then High else risk1)
          in \<lparr>complexity = cx, risk = risk2, totalAdded = ta, totalRemoved = tr,
              fileCount = length lines\<rparr>)"

text \<open>A line with two numeric counts.\<close>

definition numeric :: "nat \<Rightarrow> nat \<Rightarrow> string \<Rightarrow> numstat_line" where
  "numeric a r p = \<lparr>added = Some a, removed = Some r, file_path = p\<rparr>"

text \<open>The aggregates the specification names.\<close>

definition sumAdded :: "numstat_line list \<Rightarrow> nat" where
  "sumAdded ls = sum_list (map (\<lambda>l. or_zero (added l)) ls)"

definition sumRemoved :: "numstat_line list \<Rightarrow> nat" where
  "sumRemoved ls = sum_list (map (\<lambda>l. or_zero (removed l)) ls)"

definition countLarge :: "numstat_line list \<Rightarrow> nat" where
  "countLarge ls = length (filter (\<lambda>l. exceeds_200 (added l) (removed l)) ls)"

text \<open>
  The lines \<open>git diff --numstat\<close> prints: two counts, or \<open>-\<close> in both count fields for a
  binary file.
\<close>

definition git_shaped :: "numstat_line \<Rightarrow> bool" where
  "git_shaped l = ((added l = None) = (removed l = None))"

text \<open>The specification's reading of a line without numeric counts: it is treated as
  0 added and 0 removed lines.\<close>

definition zero_filled :: "numstat_line \<Rightarrow> numstat_line" where
  "zero_filled l =
     (if added l = None \<or> removed l = None then l\<lparr>added := Some 0, removed := Some 0\<rparr>
      else l)"

subsection \<open>JavaScript strings\<close>

text \<open>\<open>s.includes(t)\<close>, \<open>s.startsWith(t)\<close> and \<open>s.endsWith(t)\<close>.\<close>

definition str_includes :: "string \<Rightarrow> string \<Rightarrow> bool" where
  "str_includes s t = sublist t s"

definition startsWith :: "string \<Rightarrow> string \<Rightarrow> bool" where
  "startsWith s t = prefix t s"

definition endsWith :: "string \<Rightarrow> string \<Rightarrow> bool" where
  "endsWith s t = suffix t s"

text \<open>\<open>toLowerCase\<close> and \<open>toUpperCase\<close> on the ASCII letters; every other byte is
  kept.\<close>

definition lower_char :: "char \<Rightarrow> char" where
  "lower_char c =
     (case map_of (zip ''ABCDEFGHIJKLMNOPQRSTUVWXYZ'' ''abcdefghijklmnopqrstuvwxyz'') c of
        None \<Rightarrow> c
      | Some l \<Rightarrow> l)"

definition toLowerCase :: "string \<Rightarrow> string" where
  "toLowerCase s = map lower_char s"

definition upper_char :: "char \<Rightarrow> char" where
  "upper_char c =
     (case map_of (zip ''abcdefghijklmnopqrstuvwxyz'' ''ABCDEFGHIJKLMNOPQRSTUVWXYZ'') c of
        None \<Rightarrow> c
      | Some u \<Rightarrow> u)"

text \<open>\<open>xs.join(sep)\<close>.\<close>

fun join :: "string \<Rightarrow> string list \<Rightarrow> string" where
  "join sep [] = []"
| "join sep [x] = x"
| "join sep (x # y # ys) = x @ sep @ join sep (y # ys)"

definition nl :: string where
  "nl = [CHR 0x0A]"

text \<open>A number in a template literal: its decimal digits.\<close>

fun toString :: "nat \<Rightarrow> string" where
  "toString n =
     (if n < 10 then [char_of (48 + n)]
      else toString (n div 10) @ [char_of (48 + n mod 10)])"

declare toString.simps [simp del]

subsection \<open>The PR type: \<open>detectPRType\<close>\<close>

datatype pr_label = Fix | Feature | Refactor | Docs | Test | Performance | Chore

record pr_type =
  label :: pr_label
  emoji :: string

definition detectPRType :: "string list \<Rightarrow> string list \<Rightarrow> pr_type" where
  "detectPRType commits files =
     (let commitText = toLowerCase (join '' '' commits);
          fileText = toLowerCase (join '' '' files)
      in if str_includes commitText ''fix'' \<or> str_includes commitText ''bug''
            \<or> str_includes commitText ''resolve''
         then \<lparr>label = Fix, emoji = [CHR 0xF0, CHR 0x9F, CHR 0x90, CHR 0x9B]\<rparr>
         else if str_includes commitText ''feat'' \<or> str_includes commitText ''feature''
            \<or> str_includes commitText ''add''
         then \<lparr>label = Feature, emoji = [CHR 0xE2, CHR 0x9C, CHR 0xA8]\<rparr>
         else if str_includes commitText ''refactor'' \<or> str_includes commitText ''restructure''
         then \<lparr>label = Refactor,
               emoji = [CHR 0xE2, CHR 0x99, CHR 0xBB, CHR 0xEF, CHR 0xB8, CHR 0x8F]\<rparr>
         else if str_includes commitText ''docs'' \<or> str_includes commitText ''documentation''
            \<or> str_includes fileText ''.md''
         then \<lparr>label = Docs, emoji = [CHR 0xF0, CHR 0x9F, CHR 0x93, CHR 0x9D]\<rparr>
         else if str_includes commitText ''test'' \<or> str_includes fileText ''test''
            \<or> str_includes fileText ''spec''
         then \<lparr>label = Test, emoji = [CHR 0xF0, CHR 0x9F, CHR 0xA7, CHR 0xAA]\<rparr>
         else if str_includes commitText ''perf'' \<or> str_includes commitText ''performance''
            \<or> str_includes commitText ''optimize''
         then \<lparr>label = Performance, emoji = [CHR 0xE2, CHR 0x9A, CHR 0xA1]\<rparr>
         else \<lparr>label = Chore, emoji = [CHR 0xF0, CHR 0x9F, CHR 0x94, CHR 0xA7]\<rparr>)"

text \<open>
  The specification's reading of the classifier: an ordered list of (condition, label)
  pairs over the two lower-cased texts, the first condition that holds decides, and
  \<open>Chore\<close> is the default.
\<close>

fun first_match :: "(bool \<times> 'a) list \<Rightarrow> 'a \<Rightarrow> 'a" where
  "first_match [] d = d"
| "first_match ((b, v) # rs) d = (if b then v else first_match rs d)"

definition classifier_rules :: "string \<Rightarrow> string \<Rightarrow> (bool \<times> pr_label) list" where
  "classifier_rules commitText fileText =
     [(str_includes commitText ''fix'' \<or> str_includes commitText ''bug''
         \<or> str_includes commitText ''resolve'', Fix),
      (str_includes commitText ''feat'' \<or> str_includes commitText ''feature''
         \<or> str_includes commitText ''add'', Feature),
      (str_includes commitText ''refactor'' \<or> str_includes commitText ''restructure'', Refactor),
      (str_includes commitText ''docs'' \<or> str_includes commitText ''documentation''
         \<or> str_includes fileText ''.md'', Docs),
      (str_includes commitText ''test'' \<or> str_includes fileText ''test''
         \<or> str_includes fileText ''spec'', Test),
      (str_includes commitText ''perf'' \<or> str_includes commitText ''performance''
         \<or> str_includes commitText ''optimize'', Performance)]"

subsection \<open>Configuration: \<open>defaultConfig\<close> and \<open>loadConfig\<close>\<close>

datatype js_error = TypeError

text \<open>
  An element of \<open>config.excludePatterns\<close>. The default list holds regular-expression
  objects without flags; such an object is its \<open>test\<close> predicate. A configuration file
  is JSON, where a pattern is a string holding the expression's source (as the README
  writes them); the script never compiles it.
\<close>

datatype pattern = RegExp "string \<Rightarrow> bool" | Source string

record pr_config =
  baseBranch :: string
  outputFile :: string
  templatePath :: "string option"
  guidePath :: "string option"
  excludePatterns :: "pattern list"

definition defaultPatterns :: "pattern list" where
  "defaultPatterns =
     [RegExp (\<lambda>f. startsWith f ''.windsurf/''),
      RegExp (\<lambda>f. startsWith f ''.cursor/''),
      RegExp (\<lambda>f. startsWith f ''.vscode/''),
      RegExp (\<lambda>f. startsWith f ''.idea/''),
      RegExp (\<lambda>f. startsWith f ''node_modules/''),
      RegExp (\<lambda>f. startsWith f ''.next/''),
      RegExp (\<lambda>f. startsWith f ''dist/''),
      RegExp (\<lambda>f. startsWith f ''build/''),
      RegExp (\<lambda>f. startsWith f ''coverage/''),
      RegExp (\<lambda>f. endsWith f ''.log''),
      RegExp (\<lambda>f. startsWith f ''.env''),
      RegExp (\<lambda>f. f = ''.gitignore''),
      RegExp (\<lambda>f. f = ''package-lock.json''),
      RegExp (\<lambda>f. f = ''yarn.lock'')]"

definition defaultConfig :: pr_config where
  "defaultConfig =
     \<lparr>baseBranch = ''main'', outputFile = ''PR_SUMMARY.md'', templatePath = None,
      guidePath = None, excludePatterns = defaultPatterns\<rparr>"






subsection \<open>File categories: \<open>categorizeFiles\<close>\<close>

text \<open>\<open>config.excludePatterns.some((pattern) => pattern.test(file))\<close>: the patterns are
  tried in order and the first match ends the search; a string has no \<open>test\<close> method,
  so calling it throws.\<close>

fun some_test :: "pattern list \<Rightarrow> string \<Rightarrow> js_error + bool" where
  "some_test [] file = Inr False"
| "some_test (RegExp t # ps) file = (if t file then Inr True else some_test ps file)"
| "some_test (Source src # ps) file = Inl TypeError"

record categories =
  components :: "string list"
  hooks :: "string list"
  utils :: "string list"
  types :: "string list"
  styles :: "string list"
  tests :: "string list"
  docs :: "string list"
  config :: "string list"
  scripts :: "string list"
  other :: "string list"

definition emptyCategories :: categories where
  "emptyCategories =
     \<lparr>components = [], hooks = [], utils = [], types = [], styles = [], tests = [],
      docs = [], config = [], scripts = [], other = []\<rparr>"

text \<open>The three regular expressions of the chain; each is anchored at the end only.\<close>

definition styles_re :: "string \<Rightarrow> bool" where
  "styles_re file =
     list_ex (\<lambda>ext. endsWith file (''.'' @ ext)) [''scss'', ''css'', ''less'', ''sass'']"

definition tests_re :: "string \<Rightarrow> bool" where
  "tests_re file =
     list_ex (\<lambda>kind. list_ex (\<lambda>ext. endsWith file (''.'' @ kind @ ''.'' @ ext))
                        [''ts'', ''tsx'', ''js'', ''jsx''])
       [''test'', ''spec'']"

definition config_re :: "string \<Rightarrow> bool" where
  "config_re file =
     list_ex (\<lambda>ext. endsWith file (''.'' @ ext))
       [''json'', ''yml'', ''yaml'', ''config.ts'', ''config.js'']"

text \<open>The \<open>if\<close>/\<open>else if\<close> chain of the \<open>forEach\<close> body, for a file that is not excluded.\<close>

definition categorize_file :: "categories \<Rightarrow> string \<Rightarrow> categories" where
  "categorize_file c file =
     (if str_includes file ''components/'' \<or> str_includes file ''src/components/''
        then c\<lparr>components := components c @ [file]\<rparr>
      else if str_includes file ''hooks/'' \<or> str_includes file ''src/hooks/''
        then c\<lparr>hooks := hooks c @ [file]\<rparr>
      else if str_includes file ''utils/'' \<or> str_includes file ''src/utils/''
        then c\<lparr>utils := utils c @ [file]\<rparr>
      else if str_includes file ''types/'' \<or> str_includes file ''src/types/''
        then c\<lparr>types := types c @ [file]\<rparr>
      else if styles_re file then c\<lparr>styles := styles c @ [file]\<rparr>
      else if tests_re file then c\<lparr>tests := tests c @ [file]\<rparr>
      else if str_includes file ''scripts/'' \<or> str_includes file ''src/scripts/''
        then c\<lparr>scripts := scripts c @ [file]\<rparr>
      else if endsWith file ''.md'' \<and> \<not> str_includes file ''node_modules''
        then c\<lparr>docs := docs c @ [file]\<rparr>
      else if config_re file then c\<lparr>config := config c @ [file]\<rparr>
      else c\<lparr>other := other c @ [file]\<rparr>)"

fun categorize_loop :: "pattern list \<Rightarrow> categories \<Rightarrow> string list \<Rightarrow> js_error + categories" where
  "categorize_loop pats c [] = Inr c"
| "categorize_loop pats c (file # files) =
     (case some_test pats file of
        Inl e \<Rightarrow> Inl e
      | Inr excluded \<Rightarrow>
          if excluded then categorize_loop pats c files
          else categorize_loop pats (categorize_file c file) files)"

definition categorizeFiles :: "pr_config \<Rightarrow> string list \<Rightarrow> js_error + categories" where
  "categorizeFiles cfg files = categorize_loop (excludePatterns cfg) emptyCategories files"

text \<open>\<open>Object.entries(categories)\<close>: the keys in the order the object literal of
  \<open>categorizeFiles\<close> creates them.\<close>

definition entries :: "categories \<Rightarrow> (string \<times> string list) list" where
  "entries c =
     [(''components'', components c), (''hooks'', hooks c), (''utils'', utils c),
      (''types'', types c), (''styles'', styles c), (''tests'', tests c),
      (''docs'', docs c), (''config'', config c), (''scripts'', scripts c),
      (''other'', other c)]"

text \<open>
  The specification's reading of the chain: an ordered list of (condition, bucket key)
  pairs, the first condition that holds names the bucket, and \<open>other\<close> is the default.
\<close>

definition category_rules :: "string \<Rightarrow> (bool \<times> string) list" where
  "category_rules file =
     [(str_includes file ''components/'' \<or> str_includes file ''src/components/'', ''components''),
      (str_includes file ''hooks/'' \<or> str_includes file ''src/hooks/'', ''hooks''),
      (str_includes file ''utils/'' \<or> str_includes file ''src/utils/'', ''utils''),
      (str_includes file ''types/'' \<or> str_includes file ''src/types/'', ''types''),
      (styles_re file, ''styles''),
      (tests_re file, ''tests''),
      (str_includes file ''scripts/'' \<or> str_includes file ''src/scripts/'', ''scripts''),
      (endsWith file ''.md'' \<and> \<not> str_includes file ''node_modules'', ''docs''),
      (config_re file, ''config'')]"

definition category_of :: "string \<Rightarrow> string" where
  "category_of file = first_match (category_rules file) ''other''"

text \<open>The files of the bucket under a key.\<close>

definition bucket :: "categories \<Rightarrow> string \<Rightarrow> string list" where
  "bucket c key = concat (map snd (filter (\<lambda>e. fst e = key) (entries c)))"

subsection \<open>Suggestions: \<open>generateSuggestions\<close>\<close>

definition msg_screenshots :: string where
  "msg_screenshots =
     [CHR 0xF0, CHR 0x9F, CHR 0x93, CHR 0xB8] @ '' Consider adding screenshots for UI changes''"

definition msg_accessibility :: string where
  "msg_accessibility =
     [CHR 0xE2, CHR 0x99, CHR 0xBF] @ '' Verify accessibility with screen reader''"

definition msg_hooks :: string where
  "msg_hooks = [CHR 0xF0, CHR 0x9F, CHR 0xA7, CHR 0xAA] @ '' Add unit tests for custom hooks''"

definition msg_utils :: string where
  "msg_utils =
     [CHR 0xF0, CHR 0x9F, CHR 0x93, CHR 0x8A]
     @ '' Aim for 100% test coverage on utility functions''"

definition msg_no_tests :: string where
  "msg_no_tests =
     [CHR 0xE2, CHR 0x9A, CHR 0xA0, CHR 0xEF, CHR 0xB8, CHR 0x8F]
     @ ''  No test files modified - consider adding tests''"

definition msg_types :: string where
  "msg_types =
     [CHR 0xF0, CHR 0x9F, CHR 0x93, CHR 0x9D] @ '' Update JSDoc comments for type changes''"

definition msg_responsive :: string where
  "msg_responsive =
     [CHR 0xF0, CHR 0x9F, CHR 0x8E, CHR 0xA8] @ '' Test responsive design on mobile devices''"

definition msg_dark_mode :: string where
  "msg_dark_mode =
     [CHR 0xF0, CHR 0x9F, CHR 0x8C, CHR 0x93]
     @ '' Verify dark mode compatibility (if applicable)''"

text \<open>Each \<open>if\<close> pushes onto the list the previous ones left.\<close>

definition generateSuggestions :: "categories \<Rightarrow> pr_type \<Rightarrow> string list" where
  "generateSuggestions cats prType =
     (let s0 = [];
          s1 = (if length (components cats) > 0
                then (s0 @ [msg_screenshots]) @ [msg_accessibility] else s0);
          s2 = (if length (hooks cats) > 0 then s1 @ [msg_hooks] else s1);
          s3 = (if length (utils cats) > 0 then s2 @ [msg_utils] else s2);
          s4 = (if length (tests cats) = 0 \<and> label prType \<noteq> Docs
                then s3 @ [msg_no_tests] else s3);
          s5 = (if length (types cats) > 0 then s4 @ [msg_types] else s4);
          s6 = (if length (styles cats) > 0
                then (s5 @ [msg_responsive]) @ [msg_dark_mode] else s5)
      in s6)"

subsection \<open>Rendering: \<open>generateChangesSection\<close>, \<open>generateFileList\<close>, \<open>generateAIPrompt\<close>\<close>

definition categoryLabels :: "(string \<times> string) list" where
  "categoryLabels =
     [(''components'', ''Components''), (''hooks'', ''Hooks''), (''utils'', ''Utilities''),
      (''types'', ''Types''), (''styles'', ''Styles''), (''tests'', ''Tests''),
      (''scripts'', ''Scripts''), (''docs'', ''Documentation''),
      (''config'', ''Configuration''), (''other'', ''Other Files'')]"

text \<open>\<open>categoryLabels[key]\<close> in a template literal: a missing key prints \<open>undefined\<close>.\<close>

definition label_of :: "string \<Rightarrow> string" where
  "label_of key = (case map_of categoryLabels key of None \<Rightarrow> ''undefined'' | Some l \<Rightarrow> l)"

text \<open>The body of the inner \<open>forEach\<close>: three \<open>section += ...\<close>.\<close>

definition changes_file :: "string \<Rightarrow> string \<Rightarrow> string" where
  "changes_file section file =
     ((section @ ''**`'' @ file @ ''`**'' @ nl @ nl)
       @ ''<!-- TODO: Describe changes in this file -->'' @ nl)
       @ ''- Change description'' @ nl @ nl"

text \<open>The body of the outer \<open>forEach\<close> over \<open>Object.entries(categories)\<close>.\<close>

fun changes_entry :: "string \<Rightarrow> string \<times> string list \<Rightarrow> string" where
  "changes_entry section (key, files) =
     (if length files > 0 then
        let s1 = section @ ''#### '' @ label_of key @ nl @ nl;
            s2 = foldl changes_file s1 (take 5 files);
            s3 = (if length files > 5
                  then s2 @ ''_...and '' @ toString (length files - 5) @ '' more files_''
                         @ nl @ nl
                  else s2)
        in s3
      else section)"

definition generateChangesSection :: "categories \<Rightarrow> string" where
  "generateChangesSection cats =
     (let section = foldl changes_entry [] (entries cats)
      in if section = [] then ''<!-- TODO: Describe your changes -->'' else section)"

text \<open>\<open>key.charAt(0).toUpperCase() + key.slice(1)\<close>.\<close>

definition capitalize :: "string \<Rightarrow> string" where
  "capitalize key = (case key of [] \<Rightarrow> [] | c # cs \<Rightarrow> upper_char c # cs)"

definition list_file :: "string \<Rightarrow> string \<Rightarrow> string" where
  "list_file list file = list @ ''- `'' @ file @ ''`'' @ nl"

fun list_entry :: "string \<Rightarrow> string \<times> string list \<Rightarrow> string" where
  "list_entry list (key, files) =
     (if length files > 0 then
        let l1 = list @ ''**'' @ capitalize key @ ''** ('' @ toString (length files)
                   @ ''):'' @ nl;
            l2 = foldl list_file l1 (take 10 files);
            l3 = (if length files > 10
                  then l2 @ ''- _...and '' @ toString (length files - 10) @ '' more_'' @ nl
                  else l2);
            l4 = l3 @ nl
        in l4
      else list)"

definition generateFileList :: "categories \<Rightarrow> string" where
  "generateFileList cats =
     (let list = foldl list_entry [] (entries cats)
      in if list = [] then ''- No files modified'' else list)"

text \<open>
  The specification's reading of the two renderers: one block per category, in the order
  of the keys. A block is empty for an empty category; otherwise it is a heading, one
  item for each of the first 5 (changes section) or 10 (file list) files, and, when
  there are more files, a note with the number of files left out.
\<close>

definition changes_item :: "string \<Rightarrow> string" where
  "changes_item file =
     ''**`'' @ file @ ''`**'' @ nl @ nl
     @ ''<!-- TODO: Describe changes in this file -->'' @ nl
     @ ''- Change description'' @ nl @ nl"

definition changes_block :: "string \<Rightarrow> string list \<Rightarrow> string" where
  "changes_block key files =
     (if files = [] then []
      else ''#### '' @ label_of key @ nl @ nl
           @ concat (map changes_item (take 5 files))
           @ (if 5 < length files
              then ''_...and '' @ toString (length files - 5) @ '' more files_'' @ nl @ nl
              else []))"

definition list_item :: "string \<Rightarrow> string" where
  "list_item file = ''- `'' @ file @ ''`'' @ nl"

definition list_block :: "string \<Rightarrow> string list \<Rightarrow> string" where
  "list_block key files =
     (if files = [] then []
      else ''**'' @ capitalize key @ ''** ('' @ toString (length files) @ ''):'' @ nl
           @ concat (map list_item (take 10 files))
           @ (if 10 < length files
              then ''- _...and '' @ toString (length files - 10) @ '' more_'' @ nl
              else [])
           @ nl)"

text \<open>The file listing of the assistant prompt (\<open>fileList\<close> in \<open>generateAIPrompt\<close>) with
  the heading line that counts the files; the rest of the prompt is fixed text.\<close>

definition promptFileList :: "string list \<Rightarrow> string" where
  "promptFileList files =
     ''**Files Changed ('' @ toString (length files) @ '')**:'' @ nl
     @ join nl (map (\<lambda>f. ''  - '' @ f) files)"

subsection \<open>The pipeline: \<open>main\<close>\<close>

text \<open>\<open>filter((file, index, self) => self.indexOf(file) === index)\<close>: a path is kept at
  its first occurrence.\<close>

fun dedupe_from :: "string list \<Rightarrow> string list \<Rightarrow> string list" where
  "dedupe_from seen [] = []"
| "dedupe_from seen (x # xs) =
     (if x \<in> set seen then dedupe_from seen xs else x # dedupe_from (x # seen) xs)"

definition dedupe :: "string list \<Rightarrow> string list" where
  "dedupe xs = dedupe_from [] xs"

text \<open>\<open>allFiles.filter((file) => !config.excludePatterns.some(...))\<close>, the files tested
  from left to right.\<close>

fun filter_excluded :: "pattern list \<Rightarrow> string list \<Rightarrow> js_error + string list" where
  "filter_excluded pats [] = Inr []"
| "filter_excluded pats (file # rest) =
     (case some_test pats file of
        Inl e \<Rightarrow> Inl e
      | Inr excluded \<Rightarrow>
          (case filter_excluded pats rest of
             Inl e \<Rightarrow> Inl e
           | Inr kept \<Rightarrow> Inr (if excluded then kept else file # kept)))"

text \<open>
  What \<open>main\<close> computes from the three git reports (the lines of the commit log, of the
  changed-path log and of the numstat report) before the fixed text of the template is
  wrapped around it.
\<close>

record summary =
  sm_files :: "string list"
  sm_prType :: pr_type
  sm_categories :: categories
  sm_analysis :: analysis
  sm_suggestions :: "string list"
  sm_changesSection :: string
  sm_fileList :: string
  sm_promptFileList :: string

definition main :: "pr_config \<Rightarrow> string list \<Rightarrow> string list \<Rightarrow> numstat_line list
    \<Rightarrow> js_error + summary" where
  "main cfg commitLines fileLines numstat =
     (let commits = filter (\<lambda>l. l \<noteq> []) commitLines;
          allFiles = dedupe (filter (\<lambda>l. l \<noteq> []) fileLines)
      in case filter_excluded (excludePatterns cfg) allFiles of
           Inl e \<Rightarrow> Inl e
         | Inr files \<Rightarrow>
             let prType = detectPRType commits files
             in (case categorizeFiles cfg files of
                   Inl e \<Rightarrow> Inl e
                 | Inr cats \<Rightarrow>
                     let an = analyzeComplexity numstat;
                         suggestions = generateSuggestions cats prType
                     in Inr \<lparr>sm_files = files, sm_prType = prType, sm_categories = cats,
                             sm_analysis = an, sm_suggestions = suggestions,
                             sm_changesSection = generateChangesSection cats,
                             sm_fileList = generateFileList cats,
                             sm_promptFileList = promptFileList files\<rparr>))"

section \<open>Properties\<close>

subsection \<open>The analyzer\<close>

lemma foldl_count_line:
  "foldl count_line (ta, tr, lf) ls = (ta + sumAdded ls, tr + sumRemoved ls, lf + countLarge ls)"
  by (induction ls arbitrary: ta tr lf) (simp_all add: sumAdded_def sumRemoved_def countLarge_def)

lemma analyzeComplexity_eq:
  "analyzeComplexity ls =
     \<lparr>complexity = (if sumAdded ls + sumRemoved ls > 1000 \<or> countLarge ls > 3 then High
                     else if sumAdded ls + sumRemoved ls > 300 \<or> countLarge ls > 1 then Medium
                     else Low),
      risk = (if countLarge ls > 5 \<or> sumAdded ls + sumRemoved ls > 2000 then High
              else if countLarge ls > 2 \<or> sumRemoved ls > sumAdded ls * 2 then Medium
              else Low),
      totalAdded = sumAdded ls, totalRemoved = sumRemoved ls, fileCount = length ls\<rparr>"
  by (simp add: analyzeComplexity_def foldl_count_line Let_def)

lemma sumAdded_Cons_mid:
  "sumAdded (xs @ l # ys) = sumAdded xs + or_zero (added l) + sumAdded ys"
  by (simp add: sumAdded_def)

lemma sumRemoved_Cons_mid:
  "sumRemoved (xs @ l # ys) = sumRemoved xs + or_zero (removed l) + sumRemoved ys"
  by (simp add: sumRemoved_def)

lemma countLarge_Cons_mid:
  "countLarge (xs @ l # ys) =
     countLarge xs + (if exceeds_200 (added l) (removed l) then 1 else 0) + countLarge ys"
  by (simp add: countLarge_def)

lemma sumAdded_append: "sumAdded (xs @ ys) = sumAdded xs + sumAdded ys"
  by (simp add: sumAdded_def)

lemma sumRemoved_append: "sumRemoved (xs @ ys) = sumRemoved xs + sumRemoved ys"
  by (simp add: sumRemoved_def)

lemma countLarge_append: "countLarge (xs @ ys) = countLarge xs + countLarge ys"
  by (simp add: countLarge_def)

lemma numeric_sel:
  "added (numeric a r p) = Some a"
  "removed (numeric a r p) = Some r"
  "file_path (numeric a r p) = p"
  by (simp_all add: numeric_def)

lemma numeric_sums:
  "sumAdded (map (\<lambda>(a, r, p). numeric a r p) xs) = sum_list (map (\<lambda>(a, r, p). a) xs)"
  "sumRemoved (map (\<lambda>(a, r, p). numeric a r p) xs) = sum_list (map (\<lambda>(a, r, p). r) xs)"
  "countLarge (map (\<lambda>(a, r, p). numeric a r p) xs)
     = length (filter (\<lambda>(a, r, p). 200 < a + r) xs)"
  by (induction xs)
    (auto simp: sumAdded_def sumRemoved_def countLarge_def numeric_sel or_zero_def
      exceeds_200_def)

lemma tier_if_iff:
  "((if A then High else if B then Medium else Low) = High) = A"
  "((if A then High else if B then Medium else Low) = Medium) = (\<not> A \<and> B)"
  "((if A then High else if B then Medium else Low) = Low) = (\<not> A \<and> \<not> B)"
  by auto

lemma complexity_mono:
  assumes "sumAdded ls + sumRemoved ls \<le> sumAdded ls' + sumRemoved ls'"
    and "countLarge ls \<le> countLarge ls'"
  shows "tier_le (complexity (analyzeComplexity ls)) (complexity (analyzeComplexity ls'))"
  using assms by (simp add: analyzeComplexity_eq tier_le_def)

lemma risk_mono:
  assumes "sumAdded ls + sumRemoved ls \<le> sumAdded ls' + sumRemoved ls'"
    and "countLarge ls \<le> countLarge ls'"
    and "sumRemoved ls \<le> 2 * sumAdded ls
         \<or> (sumAdded ls' \<le> sumAdded ls \<and> sumRemoved ls \<le> sumRemoved ls')"
  shows "tier_le (risk (analyzeComplexity ls)) (risk (analyzeComplexity ls'))"
  using assms by (auto simp add: analyzeComplexity_eq tier_le_def)

text \<open>
  C1 (as amended). Take any numstat report and change one of its numeric lines so that
  its added+removed count does not get smaller (the two counts may move in any way).
  The complexity tier does not decrease. The risk tier does not decrease when the
  removed total was at most twice the added total before the change, or when the added
  count of the line does not grow. (The rule \<open>totalRemoved > totalAdded * 2\<close> is the one
  a larger added count can switch off.)
\<close>

theorem analyzer_monotone:
  assumes "a + r \<le> a' + r'"
  shows "tier_le (complexity (analyzeComplexity (pre @ numeric a r p # post)))
                 (complexity (analyzeComplexity (pre @ numeric a' r' p # post)))
       \<and> ((a' \<le> a \<or> sumRemoved (pre @ numeric a r p # post)
                         \<le> 2 * sumAdded (pre @ numeric a r p # post)) \<longrightarrow>
          tier_le (risk (analyzeComplexity (pre @ numeric a r p # post)))
                  (risk (analyzeComplexity (pre @ numeric a' r' p # post))))"
proof -
  let ?ls = "pre @ numeric a r p # post" and ?ls' = "pre @ numeric a' r' p # post"
  have T: "sumAdded ?ls + sumRemoved ?ls \<le> sumAdded ?ls' + sumRemoved ?ls'"
    using assms by (simp add: sumAdded_Cons_mid sumRemoved_Cons_mid numeric_sel or_zero_def)
  have L: "countLarge ?ls \<le> countLarge ?ls'"
    using assms by (simp add: countLarge_Cons_mid numeric_sel exceeds_200_def)
  have A: "a' \<le> a \<Longrightarrow> sumAdded ?ls' \<le> sumAdded ?ls \<and> sumRemoved ?ls \<le> sumRemoved ?ls'"
    using assms by (simp add: sumAdded_Cons_mid sumRemoved_Cons_mid numeric_sel or_zero_def)
  show ?thesis
    using complexity_mono [OF T L] risk_mono [OF T L] A by blast
qed

theorem analyzer_monotone_witness:
  "(100::nat) + 0 \<le> 0 + 150
   \<and> tier_le (complexity (analyzeComplexity ([numeric 250 0 ''b.ts''] @ numeric 100 0 ''a.ts'' # [])))
              (complexity (analyzeComplexity ([numeric 250 0 ''b.ts''] @ numeric 0 150 ''a.ts'' # [])))
   \<and> sumRemoved ([numeric 250 0 ''b.ts''] @ numeric 100 0 ''a.ts'' # [])
        \<le> 2 * sumAdded ([numeric 250 0 ''b.ts''] @ numeric 100 0 ''a.ts'' # [])
   \<and> tier_le (risk (analyzeComplexity ([numeric 250 0 ''b.ts''] @ numeric 100 0 ''a.ts'' # [])))
              (risk (analyzeComplexity ([numeric 250 0 ''b.ts''] @ numeric 0 150 ''a.ts'' # [])))"
  using analyzer_monotone [of 100 0 0 150 "[numeric 250 0 ''b.ts'']" "''a.ts''" "[]"]
  by (simp add: sumAdded_def sumRemoved_def numeric_sel or_zero_def)

text \<open>
  C1 as stated fails: one file with 0 added and 10 removed lines has risk Medium
  (10 > 2 * 0); raising its added count to 10 raises added+removed from 10 to 20 and
  lowers the risk to Low.
\<close>

theorem analyzer_risk_not_monotone:
  "(0::nat) + 10 < 10 + 10
   \<and> risk (analyzeComplexity [numeric 0 10 ''f'']) = Medium
   \<and> risk (analyzeComplexity [numeric 10 10 ''f'']) = Low
   \<and> \<not> tier_le (risk (analyzeComplexity [numeric 0 10 ''f'']))
                (risk (analyzeComplexity [numeric 10 10 ''f'']))"
  by (simp add: analyzeComplexity_eq tier_le_def sumAdded_def sumRemoved_def countLarge_def
      numeric_sel or_zero_def exceeds_200_def)

lemma zero_filled_aggregates:
  assumes "\<forall>l \<in> set ls. git_shaped l"
  shows "sumAdded (map zero_filled ls) = sumAdded ls"
    and "sumRemoved (map zero_filled ls) = sumRemoved ls"
    and "countLarge (map zero_filled ls) = countLarge ls"
  using assms
  by (induction ls;
      auto simp: sumAdded_def sumRemoved_def countLarge_def zero_filled_def git_shaped_def
        or_zero_def exceeds_200_def)+

lemma zero_filled_analysis:
  assumes "\<forall>l \<in> set ls. git_shaped l"
  shows "analyzeComplexity (map zero_filled ls) = analyzeComplexity ls"
  by (simp add: analyzeComplexity_eq zero_filled_aggregates [OF assms])

lemma zero_filled_numeric:
  "zero_filled l = (if added l = None \<or> removed l = None then numeric 0 0 (file_path l) else l)"
  by (simp add: zero_filled_def numeric_def)

text \<open>
  C3. On every report of the shape git prints (each line has two counts, or no count at
  all), with totalAdded and totalRemoved the sums of the counts, totalChanges their sum
  and largeFiles the number of lines with added+removed > 200, the analyzer returns the
  two totals and the number of lines, complexity High iff totalChanges > 1000 or
  largeFiles > 3, else Medium iff totalChanges > 300 or largeFiles > 1, else Low, and
  risk High iff largeFiles > 5 or totalChanges > 2000, else Medium iff largeFiles > 2 or
  totalRemoved > 2 * totalAdded, else Low. On numeric lines the aggregates are the plain
  sums and the plain count. A line without numeric counts is treated as 0/0: the
  analysis is the one of the report with such lines replaced by 0 added and 0 removed
  lines, and nothing raises.
\<close>

theorem analyzeComplexity_thresholds:
  assumes "\<forall>l \<in> set ls. git_shaped l"
  shows "(let res = analyzeComplexity ls;
        totalChanges = sumAdded ls + sumRemoved ls;
        largeFiles = countLarge ls
    in totalAdded res = sumAdded ls \<and> totalRemoved res = sumRemoved ls
       \<and> fileCount res = length ls
       \<and> (complexity res = High) = (totalChanges > 1000 \<or> largeFiles > 3)
       \<and> (complexity res = Medium)
           = (\<not> (totalChanges > 1000 \<or> largeFiles > 3) \<and> (totalChanges > 300 \<or> largeFiles > 1))
       \<and> (complexity res = Low)
           = (\<not> (totalChanges > 1000 \<or> largeFiles > 3) \<and> \<not> (totalChanges > 300 \<or> largeFiles > 1))
       \<and> (risk res = High) = (largeFiles > 5 \<or> totalChanges > 2000)
       \<and> (risk res = Medium)
           = (\<not> (largeFiles > 5 \<or> totalChanges > 2000)
              \<and> (largeFiles > 2 \<or> sumRemoved ls > 2 * sumAdded ls))
       \<and> (risk res = Low)
           = (\<not> (largeFiles > 5 \<or> totalChanges > 2000)
              \<and> \<not> (largeFiles > 2 \<or> sumRemoved ls > 2 * sumAdded ls)))
   \<and> sumAdded (map (\<lambda>(a, r, p). numeric a r p) xs) = sum_list (map (\<lambda>(a, r, p). a) xs)
   \<and> sumRemoved (map (\<lambda>(a, r, p). numeric a r p) xs) = sum_list (map (\<lambda>(a, r, p). r) xs)
   \<and> countLarge (map (\<lambda>(a, r, p). numeric a r p) xs)
       = length (filter (\<lambda>(a, r, p). 200 < a + r) xs)
   \<and> analyzeComplexity ls = analyzeComplexity (map zero_filled ls)
   \<and> sumAdded ls = sumAdded (map zero_filled ls)
   \<and> sumRemoved ls = sumRemoved (map zero_filled ls)
   \<and> countLarge ls = countLarge (map zero_filled ls)
   \<and> zero_filled l
       = (if added l = None \<or> removed l = None then numeric 0 0 (file_path l) else l)"
proof -
  have tiers: "(let res = analyzeComplexity ls;
        totalChanges = sumAdded ls + sumRemoved ls;
        largeFiles = countLarge ls
    in totalAdded res = sumAdded ls \<and> totalRemoved res = sumRemoved ls
       \<and> fileCount res = length ls
       \<and> (complexity res = High) = (totalChanges > 1000 \<or> largeFiles > 3)
       \<and> (complexity res = Medium)
           = (\<not> (totalChanges > 1000 \<or> largeFiles > 3) \<and> (totalChanges > 300 \<or> largeFiles > 1))
       \<and> (complexity res = Low)
           = (\<not> (totalChanges > 1000 \<or> largeFiles > 3) \<and> \<not> (totalChanges > 300 \<or> largeFiles > 1))
       \<and> (risk res = High) = (largeFiles > 5 \<or> totalChanges > 2000)
       \<and> (risk res = Medium)
           = (\<not> (largeFiles > 5 \<or> totalChanges > 2000)
              \<and> (largeFiles > 2 \<or> sumRemoved ls > 2 * sumAdded ls))
       \<and> (risk res = Low)
           = (\<not> (largeFiles > 5 \<or> totalChanges > 2000)
              \<and> \<not> (largeFiles > 2 \<or> sumRemoved ls > 2 * sumAdded ls)))"
    unfolding Let_def analyzeComplexity_eq
    by (simp add: tier_if_iff mult.commute)
  show ?thesis
    using tiers numeric_sums [of xs] zero_filled_analysis [OF assms]
      zero_filled_aggregates [OF assms] zero_filled_numeric [of l]
    by presburger
qed

theorem analyzeComplexity_thresholds_witness:
  "analyzeComplexity
     [numeric 50 10 ''a.ts'', \<lparr>added = None, removed = None, file_path = ''logo.png''\<rparr>]
   = analyzeComplexity [numeric 50 10 ''a.ts'', numeric 0 0 ''logo.png'']
   \<and> totalAdded (analyzeComplexity
        [numeric 50 10 ''a.ts'', \<lparr>added = None, removed = None, file_path = ''logo.png''\<rparr>])
       = 50
   \<and> complexity (analyzeComplexity
        [numeric 50 10 ''a.ts'', \<lparr>added = None, removed = None, file_path = ''logo.png''\<rparr>])
       = Low
   \<and> risk (analyzeComplexity
        [numeric 50 10 ''a.ts'', \<lparr>added = None, removed = None, file_path = ''logo.png''\<rparr>])
       = Low"
proof -
  let ?ls = "[numeric 50 10 ''a.ts'', \<lparr>added = None, removed = None, file_path = ''logo.png''\<rparr>]"
  have shaped: "\<forall>l \<in> set ?ls. git_shaped l"
    by (simp add: git_shaped_def numeric_sel)
  have filled: "map zero_filled ?ls = [numeric 50 10 ''a.ts'', numeric 0 0 ''logo.png'']"
    by (simp add: zero_filled_def numeric_def)
  show ?thesis
    using analyzeComplexity_thresholds [OF shaped, where xs = "[]" and l = "numeric 0 0 ''x''"]
      filled
    by (auto simp add: Let_def sumAdded_def sumRemoved_def countLarge_def numeric_sel
        or_zero_def exceeds_200_def)
qed

subsection \<open>The classifier\<close>

lemma label_detectPRType:
  "label (detectPRType commits files) =
     first_match
       (classifier_rules (toLowerCase (join '' '' commits)) (toLowerCase (join '' '' files)))
       Chore"
  by (simp add: detectPRType_def classifier_rules_def Let_def)

lemma sublist_join: "c \<in> set cs \<Longrightarrow> sublist c (join sep cs)"
proof (induction sep cs rule: join.induct)
  case (1 sep)
  then show ?case by simp
next
  case (2 sep x)
  then show ?case by simp
next
  case (3 sep x y ys)
  show ?case
  proof (cases "c = x")
    case True
    then show ?thesis by simp
  next
    case False
    with 3 have "sublist c (join sep (y # ys))" by simp
    then have "sublist c ((x @ sep) @ join sep (y # ys))"
      by (metis sublist_append)
    then show ?thesis by simp
  qed
qed

lemma includes_commit:
  assumes "c \<in> set commits" and "str_includes (toLowerCase c) kw"
  shows "str_includes (toLowerCase (join sep commits)) kw"
proof -
  have "sublist c (join sep commits)" using assms(1) by (rule sublist_join)
  then obtain ps ss where "join sep commits = ps @ c @ ss"
    by (auto simp: sublist_def)
  then have "map lower_char (join sep commits)
      = map lower_char ps @ map lower_char c @ map lower_char ss"
    by simp
  then have "sublist (map lower_char c) (map lower_char (join sep commits))"
    by (metis sublist_appendI)
  with assms(2) show ?thesis
    unfolding str_includes_def toLowerCase_def
    using sublist_order.order.trans by blast
qed

lemma fix_wins:
  "str_includes (toLowerCase (join '' '' commits)) ''fix''
     \<Longrightarrow> label (detectPRType commits files) = Fix"
  by (simp add: detectPRType_def Let_def)

lemma empty_chore: "label (detectPRType [] []) = Chore"
  by (simp add: detectPRType_def Let_def toLowerCase_def str_includes_def)

text \<open>
  C4. The label \<open>detectPRType\<close> returns is the first match of the ordered rules Fix,
  Feature, Refactor, Docs, Test, Performance over the lower-cased joined commit text and
  file text, with Chore as the default. When the commit text contains both \<open>fix\<close> and
  \<open>feat\<close> (in particular when some commit subject contains \<open>fix\<close> and some contains
  \<open>feat\<close>, in any letter case) the label is Fix. No commits and no files give Chore.
\<close>

theorem detectPRType_first_match:
  "label (detectPRType commits files)
     = first_match
         (classifier_rules (toLowerCase (join '' '' commits)) (toLowerCase (join '' '' files)))
         Chore
   \<and> map snd (classifier_rules commitText fileText)
       = [Fix, Feature, Refactor, Docs, Test, Performance]
   \<and> (str_includes (toLowerCase (join '' '' commits)) ''fix''
        \<and> str_includes (toLowerCase (join '' '' commits)) ''feat''
        \<longrightarrow> label (detectPRType commits files) = Fix)
   \<and> ((\<exists>c \<in> set commits. str_includes (toLowerCase c) ''fix'')
        \<and> (\<exists>c \<in> set commits. str_includes (toLowerCase c) ''feat'')
        \<longrightarrow> label (detectPRType commits files) = Fix)
   \<and> label (detectPRType [] []) = Chore"
proof -
  have order: "map snd (classifier_rules commitText fileText)
      = [Fix, Feature, Refactor, Docs, Test, Performance]"
    by (simp add: classifier_rules_def)
  have any: "(\<exists>c \<in> set commits. str_includes (toLowerCase c) ''fix'')
      \<longrightarrow> label (detectPRType commits files) = Fix"
    using includes_commit fix_wins by blast
  show ?thesis
    using label_detectPRType [of commits files] order any fix_wins [of commits files]
      empty_chore
    by blast
qed

theorem detectPRType_first_match_witness:
  "str_includes (toLowerCase (join '' '' [''Fix login loop'', ''feat: add button''])) ''fix''
   \<and> str_includes (toLowerCase (join '' '' [''Fix login loop'', ''feat: add button''])) ''feat''
   \<and> label (detectPRType [''Fix login loop'', ''feat: add button''] [''src/Login.tsx'']) = Fix"
proof -
  have has_fix: "str_includes (toLowerCase (join '' '' [''Fix login loop'', ''feat: add button''])) ''fix''"
    by code_simp
  have has_feat: "str_includes (toLowerCase (join '' '' [''Fix login loop'', ''feat: add button''])) ''feat''"
    by code_simp
  show ?thesis
    using has_fix has_feat
      detectPRType_first_match
        [where commits = "[''Fix login loop'', ''feat: add button'']"
           and files = "[''src/Login.tsx'']" and commitText = "[]" and fileText = "[]"]
    by blast
qed

subsection \<open>The suggestion engine\<close>

lemma generateSuggestions_blocks:
  "generateSuggestions cats prType =
     (if components cats \<noteq> [] then [msg_screenshots, msg_accessibility] else [])
     @ (if hooks cats \<noteq> [] then [msg_hooks] else [])
     @ (if utils cats \<noteq> [] then [msg_utils] else [])
     @ (if tests cats = [] \<and> label prType \<noteq> Docs then [msg_no_tests] else [])
     @ (if types cats \<noteq> [] then [msg_types] else [])
     @ (if styles cats \<noteq> [] then [msg_responsive, msg_dark_mode] else [])"
  by (simp add: generateSuggestions_def Let_def)

lemma messages_distinct:
  "distinct [msg_screenshots, msg_accessibility, msg_hooks, msg_utils, msg_no_tests,
     msg_types, msg_responsive, msg_dark_mode]"
  by (simp add: msg_screenshots_def msg_accessibility_def msg_hooks_def msg_utils_def
      msg_no_tests_def msg_types_def msg_responsive_def msg_dark_mode_def)

text \<open>
  C7. The suggestion list is the concatenation, in the order components, hooks, utils,
  no-tests, types, styles, of the messages of every rule whose condition holds: two for
  non-empty components, one for non-empty hooks, one for non-empty utils, one warning
  when tests is empty and the type is not Docs, one for non-empty types, two for
  non-empty styles. The eight messages are pairwise different, so the position of a
  message tells the rule that produced it.
\<close>

theorem generateSuggestions_order:
  "generateSuggestions cats prType =
     (if components cats \<noteq> [] then [msg_screenshots, msg_accessibility] else [])
     @ (if hooks cats \<noteq> [] then [msg_hooks] else [])
     @ (if utils cats \<noteq> [] then [msg_utils] else [])
     @ (if tests cats = [] \<and> label prType \<noteq> Docs then [msg_no_tests] else [])
     @ (if types cats \<noteq> [] then [msg_types] else [])
     @ (if styles cats \<noteq> [] then [msg_responsive, msg_dark_mode] else [])
   \<and> distinct [msg_screenshots, msg_accessibility, msg_hooks, msg_utils, msg_no_tests,
        msg_types, msg_responsive, msg_dark_mode]"
  using generateSuggestions_blocks messages_distinct by blast

theorem generateSuggestions_order_witness:
  "generateSuggestions (emptyCategories\<lparr>hooks := [''src/hooks/useAuth.ts'']\<rparr>)
     (detectPRType [''fix: resolve redirect loop''] [''src/hooks/useAuth.ts''])
   = [msg_hooks, msg_no_tests]"
proof -
  have "label (detectPRType [''fix: resolve redirect loop''] [''src/hooks/useAuth.ts'']) = Fix"
    by code_simp
  then show ?thesis
    using generateSuggestions_order
      [of "emptyCategories\<lparr>hooks := [''src/hooks/useAuth.ts'']\<rparr>"
          "detectPRType [''fix: resolve redirect loop''] [''src/hooks/useAuth.ts'']"]
    by (simp add: emptyCategories_def)
qed

subsection \<open>The categorizer: one file\<close>

lemma entries_categorize_file:
  "entries (categorize_file c f)
     = map (\<lambda>(k, fs). (k, if k = category_of f then fs @ [f] else fs)) (entries c)"
  by (simp add: categorize_file_def category_of_def category_rules_def entries_def)

lemma category_rules_keys:
  "map snd (category_rules f)
     = [''components'', ''hooks'', ''utils'', ''types'', ''styles'', ''tests'', ''scripts'',
        ''docs'', ''config'']"
  by (simp add: category_rules_def)

lemma entries_keys:
  "map fst (entries c)
     = [''components'', ''hooks'', ''utils'', ''types'', ''styles'', ''tests'', ''docs'',
        ''config'', ''scripts'', ''other'']"
  by (simp add: entries_def)

lemma category_of_key: "category_of f \<in> set (map fst (entries c))"
  by (simp add: category_of_def category_rules_def entries_def)

lemma includes_longer: "str_includes f (p @ t) \<Longrightarrow> str_includes f t"
proof -
  have "sublist t (p @ t)" by (rule sublist_append_leftI)
  then show "str_includes f (p @ t) \<Longrightarrow> str_includes f t"
    unfolding str_includes_def using sublist_order.order.trans by blast
qed

lemma src_dir_redundant:
  "(str_includes f ''components/'' \<or> str_includes f ''src/components/'')
     = str_includes f ''components/''"
  "(str_includes f ''hooks/'' \<or> str_includes f ''src/hooks/'') = str_includes f ''hooks/''"
  "(str_includes f ''utils/'' \<or> str_includes f ''src/utils/'') = str_includes f ''utils/''"
  "(str_includes f ''types/'' \<or> str_includes f ''src/types/'') = str_includes f ''types/''"
  "(str_includes f ''scripts/'' \<or> str_includes f ''src/scripts/'')
     = str_includes f ''scripts/''"
  using includes_longer [of f "''src/''" "''components/''"]
    includes_longer [of f "''src/''" "''hooks/''"]
    includes_longer [of f "''src/''" "''utils/''"]
    includes_longer [of f "''src/''" "''types/''"]
    includes_longer [of f "''src/''" "''scripts/''"]
  by auto

lemma suffix_last: "suffix e f \<Longrightarrow> e \<noteq> [] \<Longrightarrow> last f = last e"
  by (auto simp: suffix_def)

lemma md_no_extension_rule:
  assumes "endsWith f ''.md''"
  shows "\<not> styles_re f" and "\<not> tests_re f" and "\<not> config_re f"
proof -
  have d: "last f = CHR ''d''"
    using suffix_last [of "''.md''" f] assms by (simp add: endsWith_def)
  show "\<not> styles_re f"
    using d by (auto simp: styles_re_def endsWith_def dest!: suffix_last)
  show "\<not> tests_re f"
    using d by (auto simp: tests_re_def endsWith_def dest!: suffix_last)
  show "\<not> config_re f"
    using d by (auto simp: config_re_def endsWith_def dest!: suffix_last)
qed

lemma categorize_single:
  "some_test pats f = Inr False
     \<Longrightarrow> categorize_loop pats c [f] = Inr (categorize_file c f)"
  by simp

text \<open>
  C6 (as amended). For a file that is not excluded the chain tries its rules in the
  order components, hooks, utils, types, styles, tests, scripts, docs, config, and the
  file is appended to the bucket of the first rule that holds, to \<open>other\<close> when none
  does; no other bucket changes. A file under one of the directories components, hooks,
  utils, types goes to the first of these that matches, whatever its extension. The
  scripts directory rule is tried after the styles and tests extension rules: a file
  under \<open>scripts/\<close> goes to styles or tests when one of those matches, and to scripts
  otherwise (before docs and config).
\<close>

theorem categorize_file_first_match:
  "entries (categorize_file c f)
     = map (\<lambda>(k, fs). (k, if k = category_of f then fs @ [f] else fs)) (entries c)
   \<and> category_of f = first_match (category_rules f) ''other''
   \<and> map snd (category_rules f)
       = [''components'', ''hooks'', ''utils'', ''types'', ''styles'', ''tests'', ''scripts'',
          ''docs'', ''config'']
   \<and> (str_includes f ''components/'' \<longrightarrow> category_of f = ''components'')
   \<and> (\<not> str_includes f ''components/'' \<and> str_includes f ''hooks/''
        \<longrightarrow> category_of f = ''hooks'')
   \<and> (\<not> str_includes f ''components/'' \<and> \<not> str_includes f ''hooks/''
        \<and> str_includes f ''utils/'' \<longrightarrow> category_of f = ''utils'')
   \<and> (\<not> str_includes f ''components/'' \<and> \<not> str_includes f ''hooks/''
        \<and> \<not> str_includes f ''utils/'' \<and> str_includes f ''types/''
        \<longrightarrow> category_of f = ''types'')
   \<and> (str_includes f ''scripts/'' \<and> category_of f \<notin> {''components'', ''hooks'', ''utils'', ''types''}
        \<longrightarrow> category_of f
              = (if styles_re f then ''styles'' else if tests_re f then ''tests''
                 else ''scripts''))
   \<and> ((\<forall>(b, k) \<in> set (category_rules f). \<not> b) \<longrightarrow> category_of f = ''other'')"
proof -
  have dirs: "(str_includes f ''components/'' \<longrightarrow> category_of f = ''components'')
   \<and> (\<not> str_includes f ''components/'' \<and> str_includes f ''hooks/''
        \<longrightarrow> category_of f = ''hooks'')
   \<and> (\<not> str_includes f ''components/'' \<and> \<not> str_includes f ''hooks/''
        \<and> str_includes f ''utils/'' \<longrightarrow> category_of f = ''utils'')
   \<and> (\<not> str_includes f ''components/'' \<and> \<not> str_includes f ''hooks/''
        \<and> \<not> str_includes f ''utils/'' \<and> str_includes f ''types/''
        \<longrightarrow> category_of f = ''types'')"
    using src_dir_redundant [of f] by (auto simp add: category_of_def category_rules_def)
  have scr: "str_includes f ''scripts/'' \<and> category_of f \<notin> {''components'', ''hooks'', ''utils'', ''types''}
        \<longrightarrow> category_of f
              = (if styles_re f then ''styles'' else if tests_re f then ''tests''
                 else ''scripts'')"
    using src_dir_redundant [of f] by (simp add: category_of_def category_rules_def)
  have none: "(\<forall>(b, k) \<in> set (category_rules f). \<not> b) \<longrightarrow> category_of f = ''other''"
    by (simp add: category_of_def category_rules_def)
  have key: "category_of f = first_match (category_rules f) ''other''"
    by (simp add: category_of_def)
  show ?thesis
    using entries_categorize_file [of c f] key category_rules_keys [of f] dirs scr none
    by blast
qed

theorem categorize_file_first_match_witness:
  "str_includes ''src/components/Button.css'' ''components/''
   \<and> styles_re ''src/components/Button.css''
   \<and> category_of ''src/components/Button.css'' = ''components''
   \<and> components (categorize_file emptyCategories ''src/components/Button.css'')
       = [''src/components/Button.css'']
   \<and> styles (categorize_file emptyCategories ''src/components/Button.css'') = []"
proof -
  have a: "str_includes ''src/components/Button.css'' ''components/''"
    by code_simp
  have b: "styles_re ''src/components/Button.css''"
    by code_simp
  have c: "category_of ''src/components/Button.css'' = ''components''"
    using a categorize_file_first_match [of emptyCategories "''src/components/Button.css''"]
    by blast
  have "entries (categorize_file emptyCategories ''src/components/Button.css'')
     = map (\<lambda>(k, fs). (k, if k = ''components'' then fs @ [''src/components/Button.css''] else fs))
         (entries emptyCategories)"
    using c categorize_file_first_match [of emptyCategories "''src/components/Button.css''"]
    by simp
  then have "components (categorize_file emptyCategories ''src/components/Button.css'')
       = [''src/components/Button.css'']
     \<and> styles (categorize_file emptyCategories ''src/components/Button.css'') = []"
    by (simp add: entries_def emptyCategories_def)
  with a b c show ?thesis by blast
qed

text \<open>
  C6 as stated fails: \<open>scripts/theme.css\<close> matches the scripts directory rule and the
  styles extension rule, and the extension rule places it.
\<close>

theorem scripts_directory_loses_to_extension:
  "str_includes ''scripts/theme.css'' ''scripts/''
   \<and> styles_re ''scripts/theme.css''
   \<and> categorizeFiles defaultConfig [''scripts/theme.css'']
       = Inr (emptyCategories\<lparr>styles := [''scripts/theme.css'']\<rparr>)"
  by code_simp

text \<open>
  C10. A path that ends in \<open>.md\<close>, contains \<open>node_modules\<close> and is under none of the
  directories components, hooks, utils, types, scripts is appended to \<open>other\<close> and to no
  other bucket; when no exclusion pattern matches it, categorizing it alone gives the
  buckets with that one file in \<open>other\<close>. (No extension rule can hold for such a path.)
\<close>

theorem node_modules_markdown_is_other:
  assumes "endsWith f ''.md''" and "str_includes f ''node_modules''"
    and "\<not> (str_includes f ''components/'' \<or> str_includes f ''src/components/'')"
    and "\<not> (str_includes f ''hooks/'' \<or> str_includes f ''src/hooks/'')"
    and "\<not> (str_includes f ''utils/'' \<or> str_includes f ''src/utils/'')"
    and "\<not> (str_includes f ''types/'' \<or> str_includes f ''src/types/'')"
    and "\<not> (str_includes f ''scripts/'' \<or> str_includes f ''src/scripts/'')"
  shows "categorize_file c f = c\<lparr>other := other c @ [f]\<rparr>
     \<and> category_of f = ''other''
     \<and> (some_test (excludePatterns cfg) f = Inr False
          \<longrightarrow> categorizeFiles cfg [f] = Inr (emptyCategories\<lparr>other := [f]\<rparr>))"
proof -
  have one: "categorize_file c f = c\<lparr>other := other c @ [f]\<rparr>" for c
    using assms md_no_extension_rule [OF assms(1)] by (simp add: categorize_file_def)
  have key: "category_of f = ''other''"
    using assms md_no_extension_rule [OF assms(1)]
    by (simp add: category_of_def category_rules_def)
  have "some_test (excludePatterns cfg) f = Inr False
          \<longrightarrow> categorizeFiles cfg [f] = Inr (emptyCategories\<lparr>other := [f]\<rparr>)"
    using one [of emptyCategories] categorize_single [of "excludePatterns cfg" f emptyCategories]
    by (simp add: categorizeFiles_def emptyCategories_def)
  with one key show ?thesis by blast
qed

theorem node_modules_markdown_is_other_witness:
  "endsWith ''pkg/node_modules/lib/README.md'' ''.md''
   \<and> str_includes ''pkg/node_modules/lib/README.md'' ''node_modules''
   \<and> some_test (excludePatterns defaultConfig) ''pkg/node_modules/lib/README.md'' = Inr False
   \<and> categorizeFiles defaultConfig [''pkg/node_modules/lib/README.md'']
       = Inr (emptyCategories\<lparr>other := [''pkg/node_modules/lib/README.md'']\<rparr>)"
proof -
  have h1: "endsWith ''pkg/node_modules/lib/README.md'' ''.md''" by code_simp
  have h2: "str_includes ''pkg/node_modules/lib/README.md'' ''node_modules''" by code_simp
  have h3: "\<not> (str_includes ''pkg/node_modules/lib/README.md'' ''components/''
      \<or> str_includes ''pkg/node_modules/lib/README.md'' ''src/components/'')" by code_simp
  have h4: "\<not> (str_includes ''pkg/node_modules/lib/README.md'' ''hooks/''
      \<or> str_includes ''pkg/node_modules/lib/README.md'' ''src/hooks/'')" by code_simp
  have h5: "\<not> (str_includes ''pkg/node_modules/lib/README.md'' ''utils/''
      \<or> str_includes ''pkg/node_modules/lib/README.md'' ''src/utils/'')" by code_simp
  have h6: "\<not> (str_includes ''pkg/node_modules/lib/README.md'' ''types/''
      \<or> str_includes ''pkg/node_modules/lib/README.md'' ''src/types/'')" by code_simp
  have h7: "\<not> (str_includes ''pkg/node_modules/lib/README.md'' ''scripts/''
      \<or> str_includes ''pkg/node_modules/lib/README.md'' ''src/scripts/'')" by code_simp
  have h8: "some_test (excludePatterns defaultConfig) ''pkg/node_modules/lib/README.md''
      = Inr False" by code_simp
  show ?thesis
    using h1 h2 h8
      node_modules_markdown_is_other [OF h1 h2 h3 h4 h5 h6 h7, of emptyCategories defaultConfig]
    by blast
qed

subsection \<open>The categorizer: a list of files\<close>

lemma categorize_loop_entries:
  "categorize_loop pats c files = Inr c'
   \<Longrightarrow> entries c'
       = map (\<lambda>(k, fs). (k, fs @ filter (\<lambda>f. category_of f = k)
                                     (filter (\<lambda>f. some_test pats f = Inr False) files)))
           (entries c)"
proof (induction files arbitrary: c)
  case Nil
  then show ?case by (simp add: entries_def)
next
  case (Cons x xs)
  show ?case
  proof (cases "some_test pats x")
    case (Inl e)
    with Cons.prems show ?thesis by simp
  next
    case (Inr excluded)
    show ?thesis
    proof (cases excluded)
      case True
      with Inr Cons.prems have "categorize_loop pats c xs = Inr c'" by simp
      from Cons.IH [OF this] Inr True show ?thesis by simp
    next
      case False
      with Inr Cons.prems have "categorize_loop pats (categorize_file c x) xs = Inr c'"
        by simp
      from Cons.IH [OF this] Inr False show ?thesis
        by (auto simp add: entries_categorize_file)
    qed
  qed
qed

lemma categorizeFiles_entries:
  assumes "categorizeFiles cfg files = Inr c"
  shows "entries c
       = map (\<lambda>k. (k, filter (\<lambda>f. category_of f = k)
                         (filter (\<lambda>f. some_test (excludePatterns cfg) f = Inr False) files)))
           [''components'', ''hooks'', ''utils'', ''types'', ''styles'', ''tests'', ''docs'',
            ''config'', ''scripts'', ''other'']"
  using categorize_loop_entries [of "excludePatterns cfg" emptyCategories files c] assms
  by (simp add: categorizeFiles_def entries_def emptyCategories_def)

lemma mset_concat_filters:
  "distinct ks
   \<Longrightarrow> mset (concat (map (\<lambda>k. filter (\<lambda>x. g x = k) xs) ks))
       = mset (filter (\<lambda>x. g x \<in> set ks) xs)"
proof (induction ks)
  case Nil
  then show ?case by simp
next
  case (Cons k ks)
  then have "k \<notin> set ks" and "distinct ks" by simp_all
  have split: "mset (filter (\<lambda>x. g x = k) xs) + mset (filter (\<lambda>x. g x \<in> set ks) xs)
      = mset (filter (\<lambda>x. g x = k \<or> g x \<in> set ks) xs)"
    using \<open>k \<notin> set ks\<close> by (induction xs) auto
  show ?case
    using Cons.IH [OF \<open>distinct ks\<close>] split by (simp add: disj_commute eq_commute)
qed

lemma bucket_of_entries:
  assumes "entries c = map (\<lambda>k. (k, h k)) ks" and "distinct ks"
  shows "bucket c key = (if key \<in> set ks then h key else [])"
proof -
  have "concat (map snd (filter (\<lambda>e. fst e = key) (map (\<lambda>k. (k, h k)) ks)))
      = (if key \<in> set ks then h key else [])"
    using \<open>distinct ks\<close> by (induction ks) auto
  with assms(1) show ?thesis by (simp add: bucket_def)
qed

lemma some_test_RegExp:
  "\<forall>p \<in> set pats. \<exists>t. p = RegExp t \<Longrightarrow> \<exists>b. some_test pats f = Inr b"
  by (induction pats f rule: some_test.induct) auto

lemma categorize_loop_total:
  "\<forall>f \<in> set files. \<exists>b. some_test pats f = Inr b
   \<Longrightarrow> \<exists>c'. categorize_loop pats c files = Inr c'"
  by (induction files arbitrary: c) auto

lemma bucket_fields:
  "bucket c ''components'' = components c" "bucket c ''hooks'' = hooks c"
  "bucket c ''utils'' = utils c" "bucket c ''types'' = types c"
  "bucket c ''styles'' = styles c" "bucket c ''tests'' = tests c"
  "bucket c ''docs'' = docs c" "bucket c ''config'' = config c"
  "bucket c ''scripts'' = scripts c" "bucket c ''other'' = other c"
  by (simp_all add: bucket_def entries_def)

lemma categorizeFiles_bucket:
  assumes "categorizeFiles cfg files = Inr c"
  shows "f \<in> set (bucket c k)
     \<longleftrightarrow> f \<in> set files \<and> some_test (excludePatterns cfg) f = Inr False \<and> category_of f = k"
proof -
  let ?ks = "[''components'', ''hooks'', ''utils'', ''types'', ''styles'', ''tests'', ''docs'',
            ''config'', ''scripts'', ''other'']"
  let ?kept = "filter (\<lambda>f. some_test (excludePatterns cfg) f = Inr False) files"
  have d: "distinct ?ks" by simp
  have b: "bucket c k = (if k \<in> set ?ks then filter (\<lambda>f. category_of f = k) ?kept else [])"
    using bucket_of_entries [OF categorizeFiles_entries [OF assms] d] .
  have "category_of f \<in> set ?ks"
    using category_of_key [of f c] by (simp add: entries_keys)
  with b show ?thesis by auto
qed

lemma categorizeFiles_mset:
  assumes "categorizeFiles cfg files = Inr c"
  shows "mset (concat (map snd (entries c)))
     = mset (filter (\<lambda>f. some_test (excludePatterns cfg) f = Inr False) files)"
proof -
  let ?ks = "[''components'', ''hooks'', ''utils'', ''types'', ''styles'', ''tests'', ''docs'',
            ''config'', ''scripts'', ''other'']"
  let ?kept = "filter (\<lambda>f. some_test (excludePatterns cfg) f = Inr False) files"
  have d: "distinct ?ks" by simp
  have all: "category_of f \<in> set ?ks" for f
    using category_of_key [of f c] by (simp add: entries_keys)
  have "concat (map snd (entries c))
      = concat (map (\<lambda>k. filter (\<lambda>f. category_of f = k) ?kept) ?ks)"
    unfolding categorizeFiles_entries [OF assms] by (simp add: comp_def)
  then have "mset (concat (map snd (entries c)))
      = mset (filter (\<lambda>f. category_of f \<in> set ?ks) ?kept)"
    using mset_concat_filters [OF d, of category_of ?kept] by simp
  also have "filter (\<lambda>f. category_of f \<in> set ?ks) ?kept = ?kept"
    using all by (simp del: set_simps)
  finally show ?thesis .
qed

text \<open>
  C5. When every exclusion pattern is a regular expression (as in the default
  configuration) the categorizer returns its ten buckets. Whenever it returns, the
  buckets together hold exactly the input files that no pattern matches, each as often
  as it occurs in the input (nothing dropped, nothing added); every such file is in one
  and only one bucket, the one its first matching rule names, \<open>other\<close> when no rule
  matches; and a bucket holds nothing else.
\<close>

theorem categorizeFiles_partition:
  "((\<forall>p \<in> set (excludePatterns cfg). \<exists>t. p = RegExp t)
      \<longrightarrow> (\<exists>c'. categorizeFiles cfg files = Inr c'))
   \<and> (categorizeFiles cfg files = Inr c \<longrightarrow>
        mset (concat (map snd (entries c)))
          = mset (filter (\<lambda>f. some_test (excludePatterns cfg) f = Inr False) files)
        \<and> map fst (entries c)
            = [''components'', ''hooks'', ''utils'', ''types'', ''styles'', ''tests'', ''docs'',
               ''config'', ''scripts'', ''other'']
        \<and> (\<forall>f \<in> set files. some_test (excludePatterns cfg) f = Inr False
              \<longrightarrow> (\<exists>!k. f \<in> set (bucket c k)) \<and> f \<in> set (bucket c (category_of f)))
        \<and> (\<forall>k f. f \<in> set (bucket c k)
              \<longrightarrow> f \<in> set files \<and> some_test (excludePatterns cfg) f = Inr False))"
proof -
  have total: "(\<forall>p \<in> set (excludePatterns cfg). \<exists>t. p = RegExp t)
      \<longrightarrow> (\<exists>c'. categorizeFiles cfg files = Inr c')"
    unfolding categorizeFiles_def
    using some_test_RegExp [of "excludePatterns cfg"]
      categorize_loop_total [of files "excludePatterns cfg" emptyCategories]
    by blast
  have part: "mset (concat (map snd (entries c)))
          = mset (filter (\<lambda>f. some_test (excludePatterns cfg) f = Inr False) files)
        \<and> map fst (entries c)
            = [''components'', ''hooks'', ''utils'', ''types'', ''styles'', ''tests'', ''docs'',
               ''config'', ''scripts'', ''other'']
        \<and> (\<forall>f \<in> set files. some_test (excludePatterns cfg) f = Inr False
              \<longrightarrow> (\<exists>!k. f \<in> set (bucket c k)) \<and> f \<in> set (bucket c (category_of f)))
        \<and> (\<forall>k f. f \<in> set (bucket c k)
              \<longrightarrow> f \<in> set files \<and> some_test (excludePatterns cfg) f = Inr False)"
    if ok: "categorizeFiles cfg files = Inr c"
  proof -
    note b = categorizeFiles_bucket [OF ok]
    have one: "(\<exists>!k. f \<in> set (bucket c k)) \<and> f \<in> set (bucket c (category_of f))"
      if "f \<in> set files" and "some_test (excludePatterns cfg) f = Inr False" for f
      using that b by auto
    have only: "f \<in> set files \<and> some_test (excludePatterns cfg) f = Inr False"
      if "f \<in> set (bucket c k)" for k f
      using that b by blast
    show ?thesis
      using categorizeFiles_mset [OF ok] entries_keys [of c] one only by blast
  qed
  show ?thesis using total part by blast
qed

theorem categorizeFiles_partition_witness:
  "categorizeFiles defaultConfig [''node_modules/x.js'', ''README.md'']
       = Inr (emptyCategories\<lparr>docs := [''README.md'']\<rparr>)
   \<and> some_test (excludePatterns defaultConfig) ''README.md'' = Inr False
   \<and> ''README.md''
       \<in> set (bucket (emptyCategories\<lparr>docs := [''README.md'']\<rparr>) (category_of ''README.md''))
   \<and> mset (concat (map snd (entries (emptyCategories\<lparr>docs := [''README.md'']\<rparr>))))
       = mset (filter (\<lambda>f. some_test (excludePatterns defaultConfig) f = Inr False)
                 [''node_modules/x.js'', ''README.md''])"
proof -
  have h2: "categorizeFiles defaultConfig [''node_modules/x.js'', ''README.md'']
       = Inr (emptyCategories\<lparr>docs := [''README.md'']\<rparr>)"
    by code_simp
  have h3: "some_test (excludePatterns defaultConfig) ''README.md'' = Inr False"
    by code_simp
  have h4: "''README.md'' \<in> set [''node_modules/x.js'', ''README.md'']"
    by simp
  show ?thesis
    using h2 h3 h4
      categorizeFiles_partition
        [of defaultConfig "[''node_modules/x.js'', ''README.md'']"
            "emptyCategories\<lparr>docs := [''README.md'']\<rparr>"]
    by blast
qed

subsection \<open>The renderers\<close>

lemma foldl_changes_file:
  "foldl changes_file s fs = s @ concat (map changes_item fs)"
  by (induction fs arbitrary: s) (simp_all add: changes_file_def changes_item_def)

lemma changes_entry_block:
  "changes_entry s (k, fs) = s @ changes_block k fs"
  by (simp add: changes_block_def foldl_changes_file Let_def)

lemma foldl_changes_entry:
  "foldl changes_entry s es = s @ concat (map (\<lambda>(k, fs). changes_block k fs) es)"
proof (induction es arbitrary: s)
  case Nil
  then show ?case by simp
next
  case (Cons e es)
  obtain k fs where e: "e = (k, fs)" by (cases e)
  show ?case
    unfolding e foldl_Cons changes_entry_block Cons.IH by simp
qed

lemma foldl_list_file:
  "foldl list_file s fs = s @ concat (map list_item fs)"
  by (induction fs arbitrary: s) (simp_all add: list_file_def list_item_def)

lemma list_entry_block:
  "list_entry s (k, fs) = s @ list_block k fs"
  by (simp add: list_block_def foldl_list_file Let_def)

lemma foldl_list_entry:
  "foldl list_entry s es = s @ concat (map (\<lambda>(k, fs). list_block k fs) es)"
proof (induction es arbitrary: s)
  case Nil
  then show ?case by simp
next
  case (Cons e es)
  obtain k fs where e: "e = (k, fs)" by (cases e)
  show ?case
    unfolding e foldl_Cons list_entry_block Cons.IH by simp
qed

text \<open>
  C8. The changes section is the concatenation, over the categories in the key order
  components, hooks, utils, types, styles, tests, docs, config, scripts, other, of one
  block per non-empty category: the heading, an item for each of the first 5 files, and
  past 5 files a note with the number of files left out. The file list is built the same
  way with the first 10 files and a note past 10. An empty result is replaced by the
  fixed placeholder line.
\<close>

theorem renderers_truncate_in_key_order:
  "generateChangesSection cats
     = (let body = concat (map (\<lambda>(k, fs). changes_block k fs) (entries cats))
        in if body = [] then ''<!-- TODO: Describe your changes -->'' else body)
   \<and> generateFileList cats
     = (let body = concat (map (\<lambda>(k, fs). list_block k fs) (entries cats))
        in if body = [] then ''- No files modified'' else body)
   \<and> entries cats
     = [(''components'', components cats), (''hooks'', hooks cats), (''utils'', utils cats),
        (''types'', types cats), (''styles'', styles cats), (''tests'', tests cats),
        (''docs'', docs cats), (''config'', config cats), (''scripts'', scripts cats),
        (''other'', other cats)]
   \<and> changes_block key files
     = (if files = [] then []
        else ''#### '' @ label_of key @ nl @ nl
             @ concat (map changes_item (take 5 files))
             @ (if 5 < length files
                then ''_...and '' @ toString (length files - 5) @ '' more files_'' @ nl @ nl
                else []))
   \<and> list_block key files
     = (if files = [] then []
        else ''**'' @ capitalize key @ ''** ('' @ toString (length files) @ ''):'' @ nl
             @ concat (map list_item (take 10 files))
             @ (if 10 < length files
                then ''- _...and '' @ toString (length files - 10) @ '' more_'' @ nl
                else [])
             @ nl)"
proof -
  have a: "generateChangesSection cats
     = (let body = concat (map (\<lambda>(k, fs). changes_block k fs) (entries cats))
        in if body = [] then ''<!-- TODO: Describe your changes -->'' else body)"
    by (simp add: generateChangesSection_def foldl_changes_entry Let_def)
  have b: "generateFileList cats
     = (let body = concat (map (\<lambda>(k, fs). list_block k fs) (entries cats))
        in if body = [] then ''- No files modified'' else body)"
    by (simp add: generateFileList_def foldl_list_entry Let_def)
  show ?thesis
    using a b entries_def [of cats] changes_block_def [of key files]
      list_block_def [of key files]
    by blast
qed

theorem renderers_truncate_in_key_order_witness:
  "generateChangesSection
     (emptyCategories\<lparr>docs := [''a.md'', ''b.md'', ''c.md'', ''d.md'', ''e.md'', ''f.md'', ''g.md'']\<rparr>)
   = ''#### Documentation'' @ nl @ nl
     @ changes_item ''a.md'' @ changes_item ''b.md'' @ changes_item ''c.md''
     @ changes_item ''d.md'' @ changes_item ''e.md''
     @ ''_...and 2 more files_'' @ nl @ nl"
proof -
  let ?cats =
    "emptyCategories\<lparr>docs := [''a.md'', ''b.md'', ''c.md'', ''d.md'', ''e.md'', ''f.md'', ''g.md'']\<rparr>"
  have "generateChangesSection ?cats
     = (let body = concat (map (\<lambda>(k, fs). changes_block k fs) (entries ?cats))
        in if body = [] then ''<!-- TODO: Describe your changes -->'' else body)"
    using renderers_truncate_in_key_order [of ?cats "[]" "[]"] by blast
  also have "\<dots> = ''#### Documentation'' @ nl @ nl
     @ changes_item ''a.md'' @ changes_item ''b.md'' @ changes_item ''c.md''
     @ changes_item ''d.md'' @ changes_item ''e.md''
     @ ''_...and 2 more files_'' @ nl @ nl"
    by code_simp
  finally show ?thesis .
qed

subsection \<open>Exclusion in the pipeline\<close>

lemma filter_excluded_Inr:
  "filter_excluded pats xs = Inr ys
   \<Longrightarrow> ys = filter (\<lambda>f. some_test pats f = Inr False) xs"
proof (induction xs arbitrary: ys)
  case Nil
  then show ?case by simp
next
  case (Cons x xs)
  then show ?case
    by (cases "some_test pats x"; cases "filter_excluded pats xs") (auto split: if_splits)
qed

lemma filter_excluded_skip:
  "filter_excluded pats (filter (\<lambda>f. some_test pats f \<noteq> Inr True) xs)
     = filter_excluded pats xs"
proof (induction xs)
  case Nil
  then show ?case by simp
next
  case (Cons x xs)
  then show ?case
    by (cases "some_test pats x"; cases "filter_excluded pats xs") auto
qed

lemma dedupe_from_filter:
  "(\<And>x. P x \<Longrightarrow> x \<in> set seen \<longleftrightarrow> x \<in> set seen')
   \<Longrightarrow> dedupe_from seen (filter P xs) = filter P (dedupe_from seen' xs)"
proof (induction xs arbitrary: seen seen')
  case Nil
  then show ?case by simp
next
  case (Cons x xs)
  show ?case
  proof (cases "P x")
    case True
    have "dedupe_from (x # seen) (filter P xs) = filter P (dedupe_from (x # seen') xs)"
      by (rule Cons.IH) (use Cons.prems in auto)
    moreover have "dedupe_from seen (filter P xs) = filter P (dedupe_from seen' xs)"
      by (rule Cons.IH) (use Cons.prems in auto)
    ultimately show ?thesis using True Cons.prems [of x] by simp
  next
    case False
    have a: "dedupe_from seen (filter P xs) = filter P (dedupe_from seen' xs)"
      by (rule Cons.IH) (use Cons.prems in auto)
    have b: "dedupe_from seen (filter P xs) = filter P (dedupe_from (x # seen') xs)"
      by (rule Cons.IH) (use Cons.prems False in auto)
    show ?thesis using False a b by simp
  qed
qed

lemma dedupe_filter: "dedupe (filter P xs) = filter P (dedupe xs)"
  unfolding dedupe_def by (rule dedupe_from_filter) simp

lemma main_ignores_excluded:
  "main cfg commitLines
     (filter (\<lambda>f. some_test (excludePatterns cfg) f \<noteq> Inr True) fileLines) numstat
   = main cfg commitLines fileLines numstat"
proof -
  let ?P = "\<lambda>f. some_test (excludePatterns cfg) f \<noteq> Inr True"
  have "dedupe (filter (\<lambda>l. l \<noteq> []) (filter ?P fileLines))
      = filter ?P (dedupe (filter (\<lambda>l. l \<noteq> []) fileLines))"
    by (simp add: dedupe_filter [symmetric] conj_commute)
  then have "filter_excluded (excludePatterns cfg)
        (dedupe (filter (\<lambda>l. l \<noteq> []) (filter ?P fileLines)))
      = filter_excluded (excludePatterns cfg) (dedupe (filter (\<lambda>l. l \<noteq> []) fileLines))"
    by (simp add: filter_excluded_skip)
  then show ?thesis by (simp add: main_def Let_def)
qed

lemma main_Inr:
  assumes "main cfg commitLines fileLines numstat = Inr s"
  shows "sm_files s = filter (\<lambda>f. some_test (excludePatterns cfg) f = Inr False)
                        (dedupe (filter (\<lambda>l. l \<noteq> []) fileLines))"
    and "categorizeFiles cfg (sm_files s) = Inr (sm_categories s)"
    and "sm_changesSection s = generateChangesSection (sm_categories s)"
    and "sm_fileList s = generateFileList (sm_categories s)"
    and "sm_promptFileList s = promptFileList (sm_files s)"
    and "sm_prType s = detectPRType (filter (\<lambda>l. l \<noteq> []) commitLines) (sm_files s)"
    and "sm_analysis s = analyzeComplexity numstat"
  using assms filter_excluded_Inr [of "excludePatterns cfg"
      "dedupe (filter (\<lambda>l. l \<noteq> []) fileLines)"]
  by (auto simp add: main_def Let_def split: sum.splits)

text \<open>
  C2 (as amended). Whenever the pipeline returns, no pattern matches any path of the
  file list it works on, of any bucket of the categories, or of what the two document
  renderers and the prompt listing are computed from (the renderers read the buckets
  only, the classifier and the prompt the filtered list only). Dropping from the input
  every path that a pattern matches changes nothing in the result. The analyzer is not
  part of this: it is run on the whole numstat report, whatever the patterns are.
\<close>

theorem excluded_files_never_listed:
  "(main cfg commitLines fileLines numstat = Inr s \<longrightarrow>
      (\<forall>f \<in> set (sm_files s). some_test (excludePatterns cfg) f = Inr False)
      \<and> (\<forall>k. \<forall>f \<in> set (bucket (sm_categories s) k).
            some_test (excludePatterns cfg) f = Inr False)
      \<and> sm_changesSection s = generateChangesSection (sm_categories s)
      \<and> sm_fileList s = generateFileList (sm_categories s)
      \<and> sm_promptFileList s = promptFileList (sm_files s)
      \<and> sm_prType s = detectPRType (filter (\<lambda>l. l \<noteq> []) commitLines) (sm_files s)
      \<and> sm_analysis s = analyzeComplexity numstat)
   \<and> main cfg commitLines
        (filter (\<lambda>f. some_test (excludePatterns cfg) f \<noteq> Inr True) fileLines) numstat
      = main cfg commitLines fileLines numstat"
proof -
  have "(\<forall>f \<in> set (sm_files s). some_test (excludePatterns cfg) f = Inr False)
      \<and> (\<forall>k. \<forall>f \<in> set (bucket (sm_categories s) k).
            some_test (excludePatterns cfg) f = Inr False)
      \<and> sm_changesSection s = generateChangesSection (sm_categories s)
      \<and> sm_fileList s = generateFileList (sm_categories s)
      \<and> sm_promptFileList s = promptFileList (sm_files s)
      \<and> sm_prType s = detectPRType (filter (\<lambda>l. l \<noteq> []) commitLines) (sm_files s)
      \<and> sm_analysis s = analyzeComplexity numstat"
    if ok: "main cfg commitLines fileLines numstat = Inr s"
  proof -
    have files: "\<forall>f \<in> set (sm_files s). some_test (excludePatterns cfg) f = Inr False"
      unfolding main_Inr(1) [OF ok] by simp
    have buckets: "\<forall>k. \<forall>f \<in> set (bucket (sm_categories s) k).
        some_test (excludePatterns cfg) f = Inr False"
      using categorizeFiles_bucket [OF main_Inr(2) [OF ok]] by blast
    show ?thesis
      using files buckets main_Inr(3-7) [OF ok] by blast
  qed
  then show ?thesis using main_ignores_excluded [of cfg commitLines fileLines numstat] by blast
qed

theorem excluded_files_never_listed_witness:
  "\<exists>s. main defaultConfig [''docs: readme''] [''node_modules/x.js'', ''README.md'']
          [numeric 3 1 ''README.md''] = Inr s
      \<and> sm_files s = [''README.md'']
      \<and> some_test (excludePatterns defaultConfig) ''README.md'' = Inr False
      \<and> sm_promptFileList s = promptFileList [''README.md'']"
proof -
  have "case main defaultConfig [''docs: readme''] [''node_modules/x.js'', ''README.md'']
          [numeric 3 1 ''README.md''] of
          Inl e \<Rightarrow> False | Inr s \<Rightarrow> sm_files s = [''README.md'']"
    by code_simp
  then obtain s where s: "main defaultConfig [''docs: readme'']
        [''node_modules/x.js'', ''README.md''] [numeric 3 1 ''README.md''] = Inr s"
      "sm_files s = [''README.md'']"
    by (auto split: sum.splits)
  have "(\<forall>f \<in> set (sm_files s). some_test (excludePatterns defaultConfig) f = Inr False)
      \<and> sm_promptFileList s = promptFileList (sm_files s)"
    using s(1) excluded_files_never_listed
      [of defaultConfig "[''docs: readme'']" "[''node_modules/x.js'', ''README.md'']"
          "[numeric 3 1 ''README.md'']" s]
    by blast
  with s show ?thesis by auto
qed

text \<open>
  C2 as stated fails for the change counting: with the default patterns
  \<open>node_modules/x.js\<close> is excluded from the file list, and the analyzer still counts its
  numstat line (one file, 5000 added lines, complexity and risk High).
\<close>

theorem analyzer_counts_excluded_files:
  "some_test (excludePatterns defaultConfig) ''node_modules/x.js'' = Inr True
   \<and> (case main defaultConfig [] [''node_modules/x.js''] [numeric 5000 0 ''node_modules/x.js''] of
         Inl e \<Rightarrow> False
       | Inr s \<Rightarrow> sm_files s = [] \<and> fileCount (sm_analysis s) = 1
                  \<and> totalAdded (sm_analysis s) = 5000
                  \<and> complexity (sm_analysis s) = High \<and> risk (sm_analysis s) = High)"
  by code_simp

subsection \<open>Patterns from a configuration file\<close>


end
